theory Spec2Isabelle
  imports Complex_Main "HOL-Library.AList" "HOL-Library.Multiset" "HOL-Library.Code_Target_Nat"
begin

section \<open>Python values used by quiz.py\<close>

text \<open>
  Exceptions are values. Only the exceptions that the modelled statements can raise are
  listed: \<open>%\<close> and \<open>/\<close> raise ZeroDivisionError on a zero divisor, \<open>/\<close> and
  \<open>int()\<close> of a float raise OverflowError out of the range of the floats, list
  indexing raises IndexError, and \<open>random.sample\<close> raises ValueError when the sample
  is larger than the population. The ValueError of \<open>int()\<close> on a string is caught where
  it is raised.
\<close>

datatype py_error = ValueError | ZeroDivisionError | OverflowError | IndexError

text \<open>
  List indexing \<open>xs[i]\<close>: an index below zero is taken from the end of the list, and
  an index that then falls outside the list raises IndexError.
\<close>

definition getitem :: "'a list \<Rightarrow> int \<Rightarrow> py_error + 'a" where
  "getitem xs i =
     (if 0 \<le> i \<and> i < int (length xs) then Inr (xs ! nat i)
      else if i < 0 \<and> - int (length xs) \<le> i then Inr (xs ! nat (int (length xs) + i))
      else Inl IndexError)"

text \<open>
  The operator \<open>%\<close> on integers: the result has the sign of the divisor, as \<open>mod\<close>
  on \<open>int\<close> has; a zero divisor raises.
\<close>

definition py_mod :: "int \<Rightarrow> int \<Rightarrow> py_error + int" where
  "py_mod a b = (if b = 0 then Inl ZeroDivisionError else Inr (a mod b))"

subsection \<open>String operations\<close>

text \<open>
  A Python \<open>str\<close> is modelled as a \<open>string\<close>; a \<open>char\<close> stands for the character with
  that code point, so the model covers text whose code points are below 256. Among
  these, the whitespace that \<open>str.strip()\<close> removes is the characters 9 to 13, 28 to
  31, the space, 133 and 160.
\<close>

definition isspace :: "char \<Rightarrow> bool" where
  "isspace c =
     (let n = of_char c :: nat
      in (9 \<le> n \<and> n \<le> 13) \<or> (28 \<le> n \<and> n \<le> 32) \<or> n = 133 \<or> n = 160)"

definition strip :: "string \<Rightarrow> string" where
  "strip s = rev (dropWhile isspace (rev (dropWhile isspace s)))"

text \<open>\<open>s.split(sep, 1)\<close> for a one-character separator: split at its first occurrence.\<close>

definition split1 :: "char \<Rightarrow> string \<Rightarrow> string list" where
  "split1 sep s =
     (if sep \<in> set s then [takeWhile (\<lambda>c. c \<noteq> sep) s, tl (dropWhile (\<lambda>c. c \<noteq> sep) s)]
      else [s])"

text \<open>\<open>s.split(sep)\<close> for a one-character separator: split at every occurrence.\<close>

primrec split_all :: "char \<Rightarrow> string \<Rightarrow> string list" where
  "split_all sep [] = [[]]"
| "split_all sep (c # cs) =
     (if c = sep then [] # split_all sep cs
      else (c # hd (split_all sep cs)) # tl (split_all sep cs))"

definition startswith :: "string \<Rightarrow> string \<Rightarrow> bool" where
  "startswith s p = (take (length p) s = p)"

text \<open>
  \<open>int(s)\<close> on a string: \<open>None\<close> stands for ValueError. The parser below takes the
  conversion as a parameter \<open>to_int\<close>, so that its theorems hold for whatever the
  interpreter's \<open>int()\<close> accepts. \<open>py_int\<close> is the conversion of CPython, on text with
  code points below 256: the whitespace around the number is dropped (for \<open>int()\<close> the
  characters 9 to 13, the space, 133 and 160, but not 28 to 31), then comes an optional
  sign, then decimal digits, where single underscores may stand between digits; more
  than 4300 digits are refused (the default of \<open>sys.set_int_max_str_digits\<close>).
\<close>

definition int_space :: "char \<Rightarrow> bool" where
  "int_space c =
     (let n = of_char c :: nat in (9 \<le> n \<and> n \<le> 13) \<or> n = 32 \<or> n = 133 \<or> n = 160)"

definition isdigit :: "char \<Rightarrow> bool" where
  "isdigit c = (let n = of_char c :: nat in 48 \<le> n \<and> n \<le> 57)"

definition digit_val :: "char \<Rightarrow> int" where
  "digit_val c = int (of_char c) - 48"

fun digits_ok :: "string \<Rightarrow> bool" where
  "digits_ok [] = False"
| "digits_ok [c] = isdigit c"
| "digits_ok (c # d # cs) =
     (if isdigit c then (if d = CHR ''_'' then digits_ok cs else digits_ok (d # cs))
      else False)"

definition digits_value :: "string \<Rightarrow> int" where
  "digits_value s = foldl (\<lambda>acc c. 10 * acc + digit_val c) 0 (filter isdigit s)"

definition digits_int :: "string \<Rightarrow> int option" where
  "digits_int s =
     (if digits_ok s \<and> length (filter isdigit s) \<le> 4300 then Some (digits_value s)
      else None)"

definition py_int :: "string \<Rightarrow> int option" where
  "py_int s =
     (let t = rev (dropWhile int_space (rev (dropWhile int_space s))) in
      case t of
        [] \<Rightarrow> None
      | c # cs \<Rightarrow>
          (if c = CHR ''-'' then map_option uminus (digits_int cs)
           else if c = CHR ''+'' then digits_int cs
           else digits_int t))"

section \<open>The question store\<close>

text \<open>
  The dataclass \<open>Question\<close> (quiz.py, lines 12 to 17). The fields \<open>id\<close> and
  \<open>text\<close> carry a suffix, as the plain names are taken in Isabelle.
\<close>

record question =
  id_q :: int
  text_q :: string
  options :: "string list"
  correct_indices :: "int list"

text \<open>
  A Python \<open>dict\<close> keeps its keys in insertion order, and an assignment to an existing
  key replaces the value in place: an association list under \<open>AList.update\<close>.
\<close>

type_synonym question_dict = "(int \<times> question) list"

text \<open>
  The inner loop of \<open>parse_questions\<close> over \<open>segments[1:]\<close> (lines 54 to 59), with
  the two lists it appends to.
\<close>

fun scan_segments :: "string list \<Rightarrow> string list \<Rightarrow> int list \<Rightarrow> string list \<times> int list" where
  "scan_segments [] opts cor = (opts, cor)"
| "scan_segments (seg # segs) opts cor =
     (if startswith seg ''[X]''
      then scan_segments segs (opts @ [drop 3 seg])
             (cor @ [int (length (opts @ [drop 3 seg])) - 1])
      else scan_segments segs (opts @ [seg]) cor)"

text \<open>
  The body of the loop over the lines of the file (lines 30 to 67): the dictionary before
  the line, the dictionary after it. Every \<open>continue\<close> returns the dictionary unchanged. The indexed
  reads \<open>parts[0]\<close>, \<open>parts[1]\<close> and \<open>segments[0]\<close> go through \<open>getitem\<close>.
\<close>

definition parse_line :: "(string \<Rightarrow> int option) \<Rightarrow> question_dict \<Rightarrow> string \<Rightarrow> py_error + question_dict" where
  "parse_line to_int qs raw =
     (let line = strip raw in
      if line = [] then Inr qs
      else
        let parts = split1 CHR '' '' line in
        if length parts < 2 then Inr qs
        else
          case getitem parts 0 of
            Inl e \<Rightarrow> Inl e
          | Inr p0 \<Rightarrow>
              (case to_int p0 of
                 None \<Rightarrow> Inr qs
               | Some q_id \<Rightarrow>
                   (case getitem parts 1 of
                      Inl e \<Rightarrow> Inl e
                    | Inr text_and_options \<Rightarrow>
                        (let segments = split_all CHR ''*'' text_and_options in
                         if length segments < 2 then Inr qs
                         else
                           case getitem segments 0 of
                             Inl e \<Rightarrow> Inl e
                           | Inr question_text \<Rightarrow>
                               (case scan_segments (drop 1 segments) [] [] of
                                  (opts, cor) \<Rightarrow>
                                    if opts \<noteq> []
                                    then Inr (AList.update q_id
                                           \<lparr>id_q = q_id, text_q = question_text,
                                            options = opts, correct_indices = cor\<rparr> qs)
                                    else Inr qs)))))"

text \<open>
  \<open>parse_questions\<close> (lines 24 to 69) on the lines that iterating over the open file yields (each with its
  line end, which \<open>strip\<close> removes). Opening and decoding the file are outside the model.
\<close>

fun parse_lines :: "(string \<Rightarrow> int option) \<Rightarrow> question_dict \<Rightarrow> string list \<Rightarrow> py_error + question_dict" where
  "parse_lines to_int qs [] = Inr qs"
| "parse_lines to_int qs (l # ls) =
     (case parse_line to_int qs l of
        Inl e \<Rightarrow> Inl e
      | Inr qs' \<Rightarrow> parse_lines to_int qs' ls)"

definition parse_questions :: "(string \<Rightarrow> int option) \<Rightarrow> string list \<Rightarrow> py_error + question_dict" where
  "parse_questions to_int ls = parse_lines to_int [] ls"

section \<open>The terminal\<close>

text \<open>
  \<open>get_arrow_key\<close> (lines 352 to 399) returns one of the strings 'up', 'down', 'enter', 'esc', 'space' or
  the empty string (\<open>NoKey\<close>). The input of a session is the list of the values that the
  successive calls of \<open>get_arrow_key\<close> return. A call on the empty list never returns
  (\<open>Blocked\<close>). \<open>wait_for_enter\<close> (lines 402 to 423) reads the terminal on its own
  until Enter is pressed; what it reads is not part of the list, and it is taken to return.
\<close>

datatype key = Up | Down | Enter | Esc | Space | NoKey

datatype marker = Both | CorrectOnly | SelectedOnly | Neither

datatype tier = Doskonale | Dobrze | Warto_cwiczyc

text \<open>
  What is printed is recorded as a list of screens, one per \<open>clear_screen\<close> followed by
  prints, with the values that the prints show.
\<close>

datatype screen =
    Mode_menu int
  | Module_menu "int list" int
  | Question_screen nat nat question int "int set"
  | Result_screen bool question "marker list"
  | Exit_screen nat nat nat nat
  | Summary_screen nat nat int nat int tier

datatype 'a outcome = Blocked | Raised py_error | Returned 'a "key list" "screen list"

section \<open>The quiz\<close>

text \<open>
  The dictionaries \<open>questions\<close> and \<open>modules\<close> of a quiz are association lists with
  one entry per key, as the parser and \<open>load_modules\<close> (lines 76 to 88) build them.
\<close>

record module_entry =
  name_m :: string
  description_m :: string
  questions_m :: "int list"

text \<open>
  The counters of \<open>stats\<close> and \<open>current_index\<close> are natural numbers: the code sets them
  to 0 or to a length and only ever adds 1.
\<close>

record stats =
  correct :: nat
  wrong :: nat
  total_count :: nat

record quiz =
  questions :: question_dict
  modules :: "(int \<times> module_entry) list"
  current_index :: nat
  quiz_questions :: "int list"
  stats :: stats

text \<open>\<open>Quiz.__init__\<close> (lines 94 to 99).\<close>

definition quiz_init :: "question_dict \<Rightarrow> (int \<times> module_entry) list \<Rightarrow> quiz" where
  "quiz_init questions' modules' =
     \<lparr>questions = questions', modules = modules', current_index = 0, quiz_questions = [],
      stats = \<lparr>correct = 0, wrong = 0, total_count = 0\<rparr>\<rparr>"

subsection \<open>Menus\<close>

text \<open>
  The \<open>while True\<close> loop of \<open>select_mode\<close> (lines 115 to 139) over its three fixed
  entries: Enter leaves the loop with the selected index, Escape returns \<open>None\<close>.
\<close>

fun select_mode_loop :: "int \<Rightarrow> key list \<Rightarrow> screen list \<Rightarrow> int option outcome" where
  "select_mode_loop selected [] out = Blocked"
| "select_mode_loop selected (Up # ks) out =
     (case py_mod (selected - 1) 3 of
        Inl e \<Rightarrow> Raised e
      | Inr s \<Rightarrow> select_mode_loop s ks (out @ [Mode_menu selected]))"
| "select_mode_loop selected (Down # ks) out =
     (case py_mod (selected + 1) 3 of
        Inl e \<Rightarrow> Raised e
      | Inr s \<Rightarrow> select_mode_loop s ks (out @ [Mode_menu selected]))"
| "select_mode_loop selected (Enter # ks) out =
     Returned (Some selected) ks (out @ [Mode_menu selected])"
| "select_mode_loop selected (Esc # ks) out =
     Returned None ks (out @ [Mode_menu selected])"
| "select_mode_loop selected (k # ks) out =
     select_mode_loop selected ks (out @ [Mode_menu selected])"

text \<open>
  \<open>select_module\<close> (lines 155 to 185): the loop, then the method with
  \<open>sorted(self.modules.keys())\<close>.
\<close>

fun select_module_loop :: "int list \<Rightarrow> int \<Rightarrow> key list \<Rightarrow> screen list \<Rightarrow> int option outcome" where
  "select_module_loop module_list selected [] out = Blocked"
| "select_module_loop module_list selected (Up # ks) out =
     (case py_mod (selected - 1) (int (length module_list)) of
        Inl e \<Rightarrow> Raised e
      | Inr s \<Rightarrow> select_module_loop module_list s ks (out @ [Module_menu module_list selected]))"
| "select_module_loop module_list selected (Down # ks) out =
     (case py_mod (selected + 1) (int (length module_list)) of
        Inl e \<Rightarrow> Raised e
      | Inr s \<Rightarrow> select_module_loop module_list s ks (out @ [Module_menu module_list selected]))"
| "select_module_loop module_list selected (Enter # ks) out =
     (case getitem module_list selected of
        Inl e \<Rightarrow> Raised e
      | Inr m \<Rightarrow> Returned (Some m) ks (out @ [Module_menu module_list selected]))"
| "select_module_loop module_list selected (Esc # ks) out =
     Returned None ks (out @ [Module_menu module_list selected])"
| "select_module_loop module_list selected (k # ks) out =
     select_module_loop module_list selected ks (out @ [Module_menu module_list selected])"

definition select_module :: "quiz \<Rightarrow> key list \<Rightarrow> screen list \<Rightarrow> int option outcome" where
  "select_module self ks out = select_module_loop (sort (map fst (modules self))) 0 ks out"

subsection \<open>One question\<close>

text \<open>
  The loop of \<open>show_question\<close> (lines 219 to 264). \<open>checked\<close> is a Python set.
  \<open>list(checked)\<close> lists its elements once each, in the order of the set's hash table,
  which is not always ascending (\<open>[8, 1]\<close> for the set of 1 and 8); the model lists them
  in ascending order. Only the order of the returned list differs: it has the same
  elements, each once. \<open>None\<close> is Python's \<open>None\<close>.
\<close>

fun show_question_loop ::
  "quiz \<Rightarrow> question \<Rightarrow> nat \<Rightarrow> int \<Rightarrow> int set \<Rightarrow> key list \<Rightarrow> screen list \<Rightarrow> int list option outcome"
where
  "show_question_loop self question number selected checked [] out = Blocked"
| "show_question_loop self question number selected checked (Up # ks) out =
     (case py_mod (selected - 1) (int (length (options question))) of
        Inl e \<Rightarrow> Raised e
      | Inr s \<Rightarrow> show_question_loop self question number s checked ks
          (out @ [Question_screen number (length (quiz_questions self)) question selected checked]))"
| "show_question_loop self question number selected checked (Down # ks) out =
     (case py_mod (selected + 1) (int (length (options question))) of
        Inl e \<Rightarrow> Raised e
      | Inr s \<Rightarrow> show_question_loop self question number s checked ks
          (out @ [Question_screen number (length (quiz_questions self)) question selected checked]))"
| "show_question_loop self question number selected checked (Space # ks) out =
     show_question_loop self question number selected
       (if selected \<in> checked then checked - {selected} else insert selected checked) ks
       (out @ [Question_screen number (length (quiz_questions self)) question selected checked])"
| "show_question_loop self question number selected checked (Enter # ks) out =
     (if checked \<noteq> {}
      then Returned (Some (sorted_list_of_set checked)) ks
        (out @ [Question_screen number (length (quiz_questions self)) question selected checked])
      else show_question_loop self question number selected checked ks
        (out @ [Question_screen number (length (quiz_questions self)) question selected checked]))"
| "show_question_loop self question number selected checked (Esc # ks) out =
     Returned None ks
       (out @ [Question_screen number (length (quiz_questions self)) question selected checked])"
| "show_question_loop self question number selected checked (NoKey # ks) out =
     show_question_loop self question number selected checked ks
       (out @ [Question_screen number (length (quiz_questions self)) question selected checked])"

definition show_question ::
  "quiz \<Rightarrow> question \<Rightarrow> nat \<Rightarrow> key list \<Rightarrow> screen list \<Rightarrow> int list option outcome"
where
  "show_question self question number ks out =
     show_question_loop self question number 0 {} ks out"

text \<open>\<open>check_answers\<close> (lines 304 to 306): the comparison of two Python sets.\<close>

definition check_answers :: "int list \<Rightarrow> int list \<Rightarrow> bool" where
  "check_answers user_answers correct_indices' = (set user_answers = set correct_indices')"

text \<open>
  \<open>show_result\<close> (lines 266 to 302): one marker per option. \<open>was_selected\<close> is
  \<open>user_answers and idx in user_answers\<close>, false on the empty list.
\<close>

definition result_marker :: "question \<Rightarrow> int list \<Rightarrow> int \<Rightarrow> marker" where
  "result_marker question user_answers idx =
     (let is_correct_answer = idx \<in> set (correct_indices question);
          was_selected = (user_answers \<noteq> [] \<and> idx \<in> set user_answers)
      in if is_correct_answer \<and> was_selected then Both
         else if is_correct_answer then CorrectOnly
         else if was_selected then SelectedOnly
         else Neither)"

definition show_result :: "bool \<Rightarrow> question \<Rightarrow> int list \<Rightarrow> screen list \<Rightarrow> screen list" where
  "show_result is_correct question user_answers out =
     out @ [Result_screen is_correct question
             (map (\<lambda>i. result_marker question user_answers (int i))
                [0..<length (options question)])]"

text \<open>\<open>show_exit_confirmation\<close> (lines 331 to 343).\<close>

definition show_exit_confirmation :: "quiz \<Rightarrow> screen list \<Rightarrow> screen list" where
  "show_exit_confirmation self out =
     out @ [Exit_screen (current_index self) (length (quiz_questions self))
             (correct (stats self)) (wrong (stats self))]"

subsection \<open>The summary\<close>

text \<open>
  \<open>show_summary\<close> (lines 308 to 329) computes in binary floating point. A Python float
  is an IEEE 754 double: a rational number \<open>m * 2^e\<close> with \<open>|m| < 2^53\<close> and
  \<open>e \<ge> -1074\<close>, below \<open>2^1024\<close> in absolute value. The result of an operation is the
  exact result rounded to the nearest double, to the one with an even \<open>m\<close> when two are
  equally near. Doubles are modelled as the rational numbers they are.
\<close>

text \<open>\<open>int.bit_length()\<close>, on an integer that is not negative: the number of its binary digits.\<close>

function bit_length :: "int \<Rightarrow> nat" where
  "bit_length n = (if n \<le> 0 then 0 else Suc (bit_length (n div 2)))"
  by pat_completeness auto
termination
  by (relation "measure nat") auto

declare bit_length.simps [simp del]

definition pow2 :: "int \<Rightarrow> rat" where
  "pow2 e = (if 0 \<le> e then 2 ^ nat e else 1 / 2 ^ nat (- e))"

text \<open>The exponent \<open>e\<close> with \<open>2^e \<le> x < 2^(e + 1)\<close>, for a positive \<open>x\<close>.\<close>

definition binade :: "rat \<Rightarrow> int" where
  "binade x =
     (case quotient_of x of
        (p, q) \<Rightarrow>
          (let e0 = int (bit_length p) - int (bit_length q)
           in if pow2 e0 \<le> x then e0 else e0 - 1))"

definition round_half_even :: "rat \<Rightarrow> int" where
  "round_half_even y =
     (let f = \<lfloor>y\<rfloor>; r = y - of_int f
      in if r < 1 / 2 then f
         else if 1 / 2 < r then f + 1
         else if even f then f else f + 1)"

text \<open>
  Rounding to the nearest double: the spacing of the doubles around \<open>x\<close> is
  \<open>2^(e - 52)\<close> for \<open>x\<close> in the binade \<open>e\<close>, and \<open>2^(-1074)\<close> below \<open>2^(-1022)\<close>.
  \<open>None\<close> stands for a result out of range (infinity).
\<close>

definition to_double :: "rat \<Rightarrow> rat option" where
  "to_double x =
     (if x = 0 then Some 0
      else
        let ulp = pow2 (max (binade \<bar>x\<bar>) (- 1022) - 52);
            y = of_int (round_half_even (\<bar>x\<bar> / ulp)) * ulp
        in if pow2 1024 \<le> y then None else Some (sgn x * y))"

text \<open>
  The operator \<open>/\<close> on two integers: a zero divisor raises ZeroDivisionError, a quotient
  too large for a float raises OverflowError, and otherwise the result is the quotient
  rounded to a double.
\<close>

definition truediv :: "nat \<Rightarrow> nat \<Rightarrow> py_error + rat" where
  "truediv a b =
     (if b = 0 then Inl ZeroDivisionError
      else (case to_double (of_nat a / of_nat b) of
              None \<Rightarrow> Inl OverflowError
            | Some r \<Rightarrow> Inr r))"

text \<open>
  \<open>int(n / total * 100) if total > 0 else 0\<close>. The product is rounded to a double
  again; \<open>int()\<close> of a float that is not negative is its floor, and \<open>int()\<close> of
  infinity raises OverflowError.
\<close>

definition percent :: "nat \<Rightarrow> nat \<Rightarrow> py_error + int" where
  "percent n total' =
     (if total' > 0
      then (case truediv n total' of
              Inl e \<Rightarrow> Inl e
            | Inr r \<Rightarrow>
                (case to_double (r * 100) of
                   None \<Rightarrow> Inl OverflowError
                 | Some p \<Rightarrow> Inr \<lfloor>p\<rfloor>))
      else Inr 0)"

text \<open>
  The literals \<open>0.8\<close> and \<open>0.6\<close> are the doubles nearest to 4/5 and 3/5.
\<close>

definition float_0_8 :: rat where
  "float_0_8 = 3602879701896397 / 4503599627370496"

definition float_0_6 :: rat where
  "float_0_6 = 5404319552844595 / 9007199254740992"

text \<open>The \<open>if\<close>/\<open>elif\<close>/\<open>else\<close> that chooses the closing message.\<close>

definition summary_tier :: "nat \<Rightarrow> nat \<Rightarrow> py_error + tier" where
  "summary_tier n total' =
     (case truediv n total' of
        Inl e \<Rightarrow> Inl e
      | Inr r \<Rightarrow>
          if r \<ge> float_0_8 then Inr Doskonale
          else (case truediv n total' of
                  Inl e \<Rightarrow> Inl e
                | Inr r' \<Rightarrow> if r' \<ge> float_0_6 then Inr Dobrze else Inr Warto_cwiczyc))"

text \<open>
  \<open>show_summary\<close>: the three prints in their order, so that the first exception raised
  is the one of the model; what was printed before it is not recorded.
\<close>

definition show_summary :: "quiz \<Rightarrow> screen list \<Rightarrow> py_error + screen list" where
  "show_summary self out =
     (case percent (correct (stats self)) (total_count (stats self)) of
        Inl e \<Rightarrow> Inl e
      | Inr correct_pct \<Rightarrow>
          (case percent (wrong (stats self)) (total_count (stats self)) of
             Inl e \<Rightarrow> Inl e
           | Inr wrong_pct \<Rightarrow>
               (case summary_tier (correct (stats self)) (total_count (stats self)) of
                  Inl e \<Rightarrow> Inl e
                | Inr t \<Rightarrow>
                    Inr (out @ [Summary_screen (total_count (stats self))
                                 (correct (stats self)) correct_pct
                                 (wrong (stats self)) wrong_pct t]))))"

subsection \<open>A run\<close>

text \<open>
  \<open>random.sample(population, k)\<close> returns the elements at \<open>k\<close> different positions of
  the population, in the order in which the generator picked the positions, and raises
  ValueError when \<open>k\<close> is larger than the population. The choice of the generator is
  the parameter \<open>picks\<close>: an order of all the positions of the population (\<open>picks_ok\<close>),
  of which the sample takes the first \<open>k\<close>.
\<close>

definition picks_ok :: "nat list \<Rightarrow> nat \<Rightarrow> bool" where
  "picks_ok picks n = (length picks = n \<and> distinct picks \<and> (\<forall>p \<in> set picks. p < n))"

definition random_sample :: "nat list \<Rightarrow> 'a list \<Rightarrow> nat \<Rightarrow> py_error + 'a list" where
  "random_sample picks population k =
     (if k \<le> length population then Inr (map (\<lambda>p. population ! p) (take k picks))
      else Inl ValueError)"

text \<open>The first three statements of \<open>run_quiz\<close> (lines 189 to 191).\<close>

definition run_quiz_init :: "nat list \<Rightarrow> quiz \<Rightarrow> int list \<Rightarrow> py_error + quiz" where
  "run_quiz_init picks self question_ids =
     (case random_sample picks question_ids
             (min (length question_ids) (length question_ids)) of
        Inl e \<Rightarrow> Inl e
      | Inr sample \<Rightarrow>
          Inr (self\<lparr>quiz_questions := sample, current_index := 0,
                    stats := \<lparr>correct = 0, wrong = 0, total_count = length sample\<rparr>\<rparr>))"

text \<open>
  One pass through the body of the \<open>while\<close> loop of \<open>run_quiz\<close> (lines 194 to 215),
  entered with \<open>current_index < len(quiz_questions)\<close>: it ends in \<open>continue\<close> or at
  the end of the body (\<open>Continue\<close>), or in \<open>break\<close> (\<open>Break\<close>).
\<close>

datatype flow = Continue | Break

definition run_quiz_body :: "quiz \<Rightarrow> key list \<Rightarrow> screen list \<Rightarrow> (flow \<times> quiz) outcome" where
  "run_quiz_body self ks out =
     (case getitem (quiz_questions self) (int (current_index self)) of
        Inl e \<Rightarrow> Raised e
      | Inr q_id \<Rightarrow>
          (case map_of (questions self) q_id of
             None \<Rightarrow> Returned (Continue, self\<lparr>current_index := current_index self + 1\<rparr>) ks out
           | Some question \<Rightarrow>
               (case show_question self question (current_index self + 1) ks out of
                  Blocked \<Rightarrow> Blocked
                | Raised e \<Rightarrow> Raised e
                | Returned None ks' out' \<Rightarrow>
                    Returned (Break, self) ks' (show_exit_confirmation self out')
                | Returned (Some user_answers) ks' out' \<Rightarrow>
                    (let is_correct = check_answers user_answers (correct_indices question);
                         out'' = show_result is_correct question user_answers out';
                         self' = (if is_correct
                                  then self\<lparr>stats := (stats self)\<lparr>correct := correct (stats self) + 1\<rparr>\<rparr>
                                  else self\<lparr>stats := (stats self)\<lparr>wrong := wrong (stats self) + 1\<rparr>\<rparr>)
                     in Returned (Continue, self'\<lparr>current_index := current_index self' + 1\<rparr>)
                          ks' out''))))"

lemma run_quiz_body_continue:
  assumes "run_quiz_body self ks out = Returned (Continue, self') ks' out'"
  shows "quiz_questions self' = quiz_questions self"
    and "current_index self' = current_index self + 1"
  using assms
  by (auto simp: run_quiz_body_def Let_def
      split: sum.splits option.splits outcome.splits if_splits)

function run_quiz_loop :: "quiz \<Rightarrow> key list \<Rightarrow> screen list \<Rightarrow> quiz outcome" where
  "run_quiz_loop self ks out =
     (if current_index self < length (quiz_questions self)
      then (case run_quiz_body self ks out of
              Blocked \<Rightarrow> Blocked
            | Raised e \<Rightarrow> Raised e
            | Returned (Continue, self') ks' out' \<Rightarrow> run_quiz_loop self' ks' out'
            | Returned (Break, self') ks' out' \<Rightarrow> Returned self' ks' out')
      else Returned self ks out)"
  by pat_completeness auto
termination
  by (relation "measure (\<lambda>(self, ks, out). length (quiz_questions self) - current_index self)")
     (auto simp: run_quiz_body_continue)

text \<open>
  \<open>run_quiz\<close> (lines 187 to 217): the three statements, the loop, then
  \<open>show_summary\<close>, whichever way the loop ended.
\<close>

definition run_quiz :: "nat list \<Rightarrow> quiz \<Rightarrow> int list \<Rightarrow> key list \<Rightarrow> screen list \<Rightarrow> quiz outcome" where
  "run_quiz picks self question_ids ks out =
     (case run_quiz_init picks self question_ids of
        Inl e \<Rightarrow> Raised e
      | Inr self0 \<Rightarrow>
          (case run_quiz_loop self0 ks out of
             Blocked \<Rightarrow> Blocked
           | Raised e \<Rightarrow> Raised e
           | Returned self' ks' out' \<Rightarrow>
               (case show_summary self' out' of
                  Inl e \<Rightarrow> Raised e
                | Inr out'' \<Rightarrow> Returned self' ks' out'')))"

text \<open>
  The last two statements of the loop of \<open>main\<close> (lines 458 and 459), reached with a
  non-empty
  \<open>question_ids\<close>: a sample of at most 20 is stored in \<open>quiz_questions\<close>, then
  \<open>run_quiz\<close> is called with the whole list. \<open>picks20\<close> is the choice of the
  generator for the first sample.
\<close>

definition main_start :: "nat list \<Rightarrow> quiz \<Rightarrow> int list \<Rightarrow> py_error + quiz" where
  "main_start picks20 quiz' question_ids =
     (case random_sample picks20 question_ids (min 20 (length question_ids)) of
        Inl e \<Rightarrow> Inl e
      | Inr sample \<Rightarrow> Inr (quiz'\<lparr>quiz_questions := sample\<rparr>))"

definition main_run ::
  "nat list \<Rightarrow> nat list \<Rightarrow> quiz \<Rightarrow> int list \<Rightarrow> key list \<Rightarrow> screen list \<Rightarrow> quiz outcome"
where
  "main_run picks20 picks quiz' question_ids ks out =
     (case main_start picks20 quiz' question_ids of
        Inl e \<Rightarrow> Raised e
      | Inr quiz'' \<Rightarrow> run_quiz picks quiz'' question_ids ks out)"

section \<open>Predicates of the statements\<close>

text \<open>
  A malformed line, in the words of the specification: after stripping, the line is
  blank, or has no space (fewer than two parts), or the part before the first space is
  not an integer, or the part after it has no \<open>*\<close> (no option segment).
\<close>

definition malformed :: "(string \<Rightarrow> int option) \<Rightarrow> string \<Rightarrow> bool" where
  "malformed to_int raw =
     (let line = strip raw in
        line = []
      \<or> CHR '' '' \<notin> set line
      \<or> to_int (takeWhile (\<lambda>c. c \<noteq> CHR '' '') line) = None
      \<or> CHR ''*'' \<notin> set (tl (dropWhile (\<lambda>c. c \<noteq> CHR '' '') line)))"

text \<open>
  What holds of every stored question: it has an option, and its correct indices are
  indices of its options. The store maps each key to a question with that id.
\<close>

definition question_ok :: "question \<Rightarrow> bool" where
  "question_ok q = (options q \<noteq> [] \<and> set (correct_indices q) \<subseteq> {0..<int (length (options q))})"

definition store_ok :: "question_dict \<Rightarrow> bool" where
  "store_ok qs = (\<forall>k q. map_of qs k = Some q \<longrightarrow> id_q q = k \<and> question_ok q)"




subsection \<open>Examples\<close>

text \<open>
  For the examples: a question with three options, the first and the last correct, and a
  quiz that holds it, as \<open>Quiz.__init__\<close> leaves it.
\<close>

abbreviation q1 :: question where
  "q1 \<equiv> \<lparr>id_q = 1, text_q = ''Q'', options = [''a'', ''b'', ''c''], correct_indices = [0, 2]\<rparr>"

abbreviation quiz1 :: quiz where
  "quiz1 \<equiv> quiz_init [(1, q1)] []"

text \<open>For the example, 21 question ids: more than the cap of 20 in \<open>main\<close>.\<close>

abbreviation ids21 :: "int list" where
  "ids21 \<equiv> [101, 102, 103, 104, 105, 106, 107, 108, 109, 110, 111, 112, 113, 114, 115, 116,
     117, 118, 119, 120, 121]"



section \<open>The parser\<close>

text \<open>\<open>split\<close> returns one more piece than there are separators.\<close>

lemma split_all_not_Nil: "split_all sep s \<noteq> []"
  by (induction s) simp_all

lemma length_split_all:
  "length (split_all sep s) = Suc (length (filter (\<lambda>c. c = sep) s))"
proof (induction s)
  case Nil
  show ?case by simp
next
  case (Cons c cs)
  have "length (tl (split_all sep cs)) = length (split_all sep cs) - 1" by simp
  with Cons split_all_not_Nil [of sep cs] show ?case by (cases "split_all sep cs") simp_all
qed

lemma split_all_no_sep:
  assumes "sep \<notin> set s"
  shows "length (split_all sep s) < 2"
proof -
  from assms have "filter (\<lambda>c. c = sep) s = []"
    by (auto simp: filter_empty_conv)
  then show ?thesis by (simp add: length_split_all)
qed

text \<open>
  The inner loop appends one option per segment, and every index it records is the
  index of the option just appended.
\<close>

lemma scan_segments_inv:
  assumes "scan_segments segs opts cor = (opts', cor')"
    and "set cor \<subseteq> {0..<int (length opts)}"
  shows "set cor' \<subseteq> {0..<int (length opts')} \<and> length opts' = length opts + length segs"
  using assms
proof (induction segs arbitrary: opts cor)
  case Nil
  then show ?case by simp
next
  case (Cons seg segs)
  show ?case
  proof (cases "startswith seg ''[X]''")
    case True
    let ?opts = "opts @ [drop 3 seg]"
    let ?cor = "cor @ [int (length ?opts) - 1]"
    from Cons.prems True have run: "scan_segments segs ?opts ?cor = (opts', cor')" by simp
    from Cons.prems(2) have "set ?cor \<subseteq> {0..<int (length ?opts)}" by auto
    from Cons.IH [OF run this]
    have a: "set cor' \<subseteq> {0..<int (length opts')}"
      and b: "length opts' = length ?opts + length segs" by blast+
    show ?thesis
    proof (intro conjI)
      show "set cor' \<subseteq> {0..<int (length opts')}" by (rule a)
      show "length opts' = length opts + length (seg # segs)" using b by simp
    qed
  next
    case False
    let ?opts = "opts @ [seg]"
    from Cons.prems False have run: "scan_segments segs ?opts cor = (opts', cor')" by simp
    from Cons.prems(2) have "set cor \<subseteq> {0..<int (length ?opts)}" by auto
    from Cons.IH [OF run this]
    have a: "set cor' \<subseteq> {0..<int (length opts')}"
      and b: "length opts' = length ?opts + length segs" by blast+
    show ?thesis
    proof (intro conjI)
      show "set cor' \<subseteq> {0..<int (length opts')}" by (rule a)
      show "length opts' = length opts + length (seg # segs)" using b by simp
    qed
  qed
qed

lemma store_ok_update:
  assumes "store_ok qs" "question_ok q" "id_q q = k"
  shows "store_ok (AList.update k q qs)"
  using assms by (auto simp: store_ok_def update_conv')

text \<open>A line either leaves the store as it is or stores one question that is well formed.\<close>

lemma parse_line_cases:
  "parse_line to_int qs raw = Inr qs \<or>
   (\<exists>q. parse_line to_int qs raw = Inr (AList.update (id_q q) q qs) \<and> question_ok q)"
proof -
  let ?line = "strip raw"
  let ?parts = "split1 CHR '' '' ?line"
  show ?thesis
  proof (cases "?line = [] \<or> length ?parts < 2")
    case True
    then show ?thesis by (auto simp: parse_line_def Let_def)
  next
    case False
    then have sp: "CHR '' '' \<in> set ?line"
      by (auto simp: split1_def split: if_splits)
    let ?p0 = "takeWhile (\<lambda>c. c \<noteq> CHR '' '') ?line"
    let ?rest = "tl (dropWhile (\<lambda>c. c \<noteq> CHR '' '') ?line)"
    from sp have parts: "?parts = [?p0, ?rest]" by (simp add: split1_def)
    have g0: "getitem ?parts 0 = Inr ?p0" and g1: "getitem ?parts 1 = Inr ?rest"
      by (simp_all add: parts getitem_def)
    show ?thesis
    proof (cases "to_int ?p0")
      case None
      with False g0 show ?thesis by (simp add: parse_line_def Let_def)
    next
      case (Some q_id)
      let ?segments = "split_all CHR ''*'' ?rest"
      show ?thesis
      proof (cases "length ?segments < 2")
        case True
        with False g0 g1 Some show ?thesis by (simp add: parse_line_def Let_def)
      next
        case long: False
        then have "0 < length ?segments" by linarith
        then have gs: "getitem ?segments 0 = Inr (?segments ! 0)"
          by (simp add: getitem_def)
        obtain opts cor where sc: "scan_segments (drop 1 ?segments) [] [] = (opts, cor)"
          by (cases "scan_segments (drop 1 ?segments) [] []")
        have "set ([] :: int list) \<subseteq> {0..<int (length ([] :: string list))}" by simp
        from scan_segments_inv [OF sc this]
        have inv: "set cor \<subseteq> {0..<int (length opts)}" by blast
        let ?q = "\<lparr>id_q = q_id, text_q = ?segments ! 0, options = opts, correct_indices = cor\<rparr>"
        show ?thesis
        proof (cases "opts = []")
          case True
          with False g0 g1 Some long gs sc show ?thesis
            by (simp add: parse_line_def Let_def)
        next
          case nonempty: False
          with False g0 g1 Some long gs sc
          have "parse_line to_int qs raw = Inr (AList.update (id_q ?q) ?q qs)"
            by (simp add: parse_line_def Let_def)
          moreover from nonempty inv have "question_ok ?q"
            by (simp add: question_ok_def)
          ultimately show ?thesis by blast
        qed
      qed
    qed
  qed
qed

lemma parse_line_store_ok:
  assumes "store_ok qs"
  shows "\<exists>qs'. parse_line to_int qs raw = Inr qs' \<and> store_ok qs'"
  using parse_line_cases [of to_int qs raw] assms
  by (auto intro: store_ok_update)

lemma parse_lines_store_ok:
  assumes "store_ok qs"
  shows "\<exists>qs'. parse_lines to_int qs ls = Inr qs' \<and> store_ok qs'"
  using assms
proof (induction ls arbitrary: qs)
  case Nil
  then show ?case by simp
next
  case (Cons l ls)
  from parse_line_store_ok [OF Cons.prems]
  obtain qs1 where l: "parse_line to_int qs l = Inr qs1" and ok: "store_ok qs1" by blast
  from Cons.IH [OF ok] l show ?case by simp
qed

lemma parse_questions_store_ok:
  "\<exists>qs. parse_questions to_int ls = Inr qs \<and> store_ok qs"
  unfolding parse_questions_def
  by (rule parse_lines_store_ok) (simp add: store_ok_def)

lemma parse_questions_options_nonempty:
  assumes "parse_questions to_int ls = Inr qs" and "map_of qs k = Some q"
  shows "options q \<noteq> []"
  using assms parse_questions_store_ok [of to_int ls]
  by (auto simp: store_ok_def question_ok_def)

text \<open>
  Claim C3, as amended. For every question stored in the dictionary that
  \<open>parse_questions\<close> returns, every correct index is an index of one of its options
  (between 0 and the number of options minus 1), and the question is stored under its
  own id. The set of correct indices can be empty: see the example after the theorem.
\<close>

theorem parsed_correct_indices_in_range:
  assumes "parse_questions to_int ls = Inr qs" and "map_of qs k = Some q"
  shows "set (correct_indices q) \<subseteq> {0..<int (length (options q))} \<and> id_q q = k"
  using assms parse_questions_store_ok [of to_int ls]
  by (auto simp: store_ok_def question_ok_def)

text \<open>
  Claim C3 as stated, with a set of correct indices that is never empty, fails on the
  line \<open>1 Q*a\<close>: it has one option and no \<open>[X]\<close> marker, and the parser stores the
  question with an empty list of correct indices.
\<close>

theorem parsed_correct_indices_can_be_empty:
  "parse_questions py_int [''1 Q*a''] =
     Inr [(1, \<lparr>id_q = 1, text_q = ''Q'', options = [''a''], correct_indices = []\<rparr>)]
   \<and> map_of [(1, \<lparr>id_q = 1, text_q = ''Q'', options = [''a''], correct_indices = []\<rparr>)] 1 =
       Some \<lparr>id_q = 1, text_q = ''Q'', options = [''a''], correct_indices = []\<rparr>
   \<and> set (correct_indices \<lparr>id_q = 1, text_q = ''Q'', options = [''a''], correct_indices = []\<rparr>) = {}"
  by (simp add: parse_questions_def parse_line_def strip_def isspace_def split1_def getitem_def
      py_int_def int_space_def digits_int_def digits_value_def digit_val_def
      isdigit_def startswith_def Let_def)

theorem parsed_correct_indices_in_range_witness:
  "parse_questions py_int [''7 Q*a*[X]b''] =
     Inr [(7, \<lparr>id_q = 7, text_q = ''Q'', options = [''a'', ''b''], correct_indices = [1]\<rparr>)]
   \<and> map_of [(7, \<lparr>id_q = 7, text_q = ''Q'', options = [''a'', ''b''], correct_indices = [1]\<rparr>)] 7 =
       Some \<lparr>id_q = 7, text_q = ''Q'', options = [''a'', ''b''], correct_indices = [1]\<rparr>
   \<and> set [1] \<subseteq> {0..<int (length [''a'', ''b''])}"
proof -
  have p: "parse_questions py_int [''7 Q*a*[X]b''] =
     Inr [(7, \<lparr>id_q = 7, text_q = ''Q'', options = [''a'', ''b''], correct_indices = [1]\<rparr>)]"
    by (simp add: parse_questions_def parse_line_def strip_def isspace_def split1_def getitem_def
      py_int_def int_space_def digits_int_def digits_value_def digit_val_def
      isdigit_def startswith_def Let_def)
  have m: "map_of [(7, \<lparr>id_q = 7, text_q = ''Q'', options = [''a'', ''b''], correct_indices = [1]\<rparr>)] (7::int) =
       Some \<lparr>id_q = 7, text_q = ''Q'', options = [''a'', ''b''], correct_indices = [1]\<rparr>"
    by simp
  from parsed_correct_indices_in_range [OF p m] p m show ?thesis by simp
qed

lemma parse_line_malformed:
  assumes "malformed to_int raw"
  shows "parse_line to_int qs raw = Inr qs"
proof -
  let ?line = "strip raw"
  let ?parts = "split1 CHR '' '' ?line"
  show ?thesis
  proof (cases "?line = [] \<or> CHR '' '' \<notin> set ?line")
    case True
    then show ?thesis by (auto simp: parse_line_def Let_def split1_def)
  next
    case False
    let ?p0 = "takeWhile (\<lambda>c. c \<noteq> CHR '' '') ?line"
    let ?rest = "tl (dropWhile (\<lambda>c. c \<noteq> CHR '' '') ?line)"
    from False have parts: "?parts = [?p0, ?rest]" by (simp add: split1_def)
    have g0: "getitem ?parts 0 = Inr ?p0" and g1: "getitem ?parts 1 = Inr ?rest"
      by (simp_all add: parts getitem_def)
    show ?thesis
    proof (cases "to_int ?p0")
      case None
      with False g0 parts show ?thesis by (simp add: parse_line_def Let_def)
    next
      case (Some q_id)
      with assms False have "CHR ''*'' \<notin> set ?rest"
        by (auto simp: malformed_def Let_def)
      then have "length (split_all CHR ''*'' ?rest) < 2" by (rule split_all_no_sep)
      with False g0 g1 parts Some show ?thesis by (simp add: parse_line_def Let_def)
    qed
  qed
qed

lemma parse_lines_append:
  "parse_lines to_int qs (xs @ ys) =
     (case parse_lines to_int qs xs of Inl e \<Rightarrow> Inl e | Inr qs' \<Rightarrow> parse_lines to_int qs' ys)"
  by (induction xs arbitrary: qs) (simp_all split: sum.splits)

text \<open>
  Claim C8. A malformed line leaves the dictionary as it was; the dictionary parsed from
  a file is the one parsed from the file without that line, whatever stands before and
  after it; and parsing returns a dictionary, it raises on no input.
\<close>

theorem malformed_line_skipped:
  assumes "malformed to_int raw"
  shows "parse_line to_int qs raw = Inr qs
       \<and> parse_questions to_int (before @ raw # after) = parse_questions to_int (before @ after)
       \<and> (\<exists>qs'. parse_questions to_int (before @ raw # after) = Inr qs')"
proof -
  have skip: "parse_line to_int qs' raw = Inr qs'" for qs'
    using assms by (rule parse_line_malformed)
  have "parse_lines to_int [] (before @ raw # after) = parse_lines to_int [] (before @ after)"
    by (simp add: parse_lines_append skip split: sum.splits)
  moreover have "\<exists>qs'. parse_questions to_int (before @ raw # after) = Inr qs'"
    using parse_questions_store_ok [of to_int "before @ raw # after"] by blast
  ultimately show ?thesis
    by (simp add: skip parse_questions_def)
qed

lemma malformed_examples:
  "malformed py_int ''   ''" "malformed py_int ''12''" "malformed py_int ''x1 Q*a''"
  "malformed py_int ''3 no options''"
  by (simp_all add: malformed_def strip_def isspace_def py_int_def int_space_def digits_int_def
      digits_value_def digit_val_def
      isdigit_def Let_def)

theorem malformed_line_skipped_witness:
  "malformed py_int ''   '' \<and> malformed py_int ''12'' \<and> malformed py_int ''x1 Q*a''
   \<and> malformed py_int ''3 no options''
   \<and> parse_questions py_int [''   '', ''7 Q*a*[X]b'', ''12'', ''x1 Q*a'', ''3 no options''] =
       Inr [(7, \<lparr>id_q = 7, text_q = ''Q'', options = [''a'', ''b''], correct_indices = [1]\<rparr>)]"
proof -
  have p: "parse_questions py_int [''7 Q*a*[X]b''] =
     Inr [(7, \<lparr>id_q = 7, text_q = ''Q'', options = [''a'', ''b''], correct_indices = [1]\<rparr>)]"
    by (simp add: parse_questions_def parse_line_def strip_def isspace_def split1_def getitem_def
      py_int_def int_space_def digits_int_def digits_value_def digit_val_def
      isdigit_def startswith_def Let_def)
  have "parse_questions py_int [''   '', ''7 Q*a*[X]b'', ''12'', ''x1 Q*a'', ''3 no options''] =
        parse_questions py_int [''7 Q*a*[X]b'']"
    using malformed_line_skipped [OF malformed_examples(1), where before = "[]" and after = "[''7 Q*a*[X]b'', ''12'', ''x1 Q*a'', ''3 no options'']"]
      malformed_line_skipped [OF malformed_examples(2), where before = "[''7 Q*a*[X]b'']" and after = "[''x1 Q*a'', ''3 no options'']"]
      malformed_line_skipped [OF malformed_examples(3), where before = "[''7 Q*a*[X]b'']" and after = "[''3 no options'']"]
      malformed_line_skipped [OF malformed_examples(4), where before = "[''7 Q*a*[X]b'']" and after = "[]"]
    by simp
  with p malformed_examples show ?thesis by simp
qed

section \<open>Cursor movement in the menus\<close>

text \<open>
  On a cursor inside the menu, \<open>(selected - 1) % n\<close> and \<open>(selected + 1) % n\<close> do not
  raise and wrap at the two ends.
\<close>

lemma mod_up_wrap:
  fixes s :: int
  assumes "0 \<le> s" "s < n"
  shows "(s - 1) mod n = (if s = 0 then n - 1 else s - 1)"
proof (cases "s = 0")
  case True
  with assms have "0 < n" by simp
  then have "(- 1) mod n = n - 1"
    by (simp add: zmod_minus1)
  with True show ?thesis by simp
next
  case False
  with assms have "0 \<le> s - 1" "s - 1 < n" by simp_all
  then have "(s - 1) mod n = s - 1" by simp
  with False show ?thesis by simp
qed

lemma mod_down_wrap:
  fixes s :: int
  assumes "0 \<le> s" "s < n"
  shows "(s + 1) mod n = (if s = n - 1 then 0 else s + 1)"
proof (cases "s = n - 1")
  case True
  then show ?thesis by simp
next
  case False
  with assms have "0 \<le> s + 1" "s + 1 < n" by simp_all
  then have "(s + 1) mod n = s + 1" by simp
  with False show ?thesis by simp
qed

lemma py_mod_up:
  assumes "0 \<le> s" "s < int n"
  shows "py_mod (s - 1) (int n) = Inr (if s = 0 then int n - 1 else s - 1)"
  using assms mod_up_wrap [of s "int n"] by (simp add: py_mod_def)

lemma py_mod_down:
  assumes "0 \<le> s" "s < int n"
  shows "py_mod (s + 1) (int n) = Inr (if s = int n - 1 then 0 else s + 1)"
  using assms mod_down_wrap [of s "int n"] by (simp add: py_mod_def)

text \<open>
  Claim C7. In each of the three loops that move a cursor (the mode menu with its 3
  entries, the module menu with one entry per module, the options of a question), with
  the cursor on an entry: \<open>up\<close> moves it from index 0 to the last index and otherwise
  to the index before, \<open>down\<close> moves it from the last index to 0 and otherwise to the
  index after. The loop goes on from there with the remaining keys.
\<close>

theorem menu_cursor_wraps:
  assumes "0 \<le> selected"
  shows
    "(selected < 3 \<longrightarrow>
        select_mode_loop selected (Up # ks) out =
          select_mode_loop (if selected = 0 then 3 - 1 else selected - 1) ks
            (out @ [Mode_menu selected])
      \<and> select_mode_loop selected (Down # ks) out =
          select_mode_loop (if selected = 3 - 1 then 0 else selected + 1) ks
            (out @ [Mode_menu selected]))
   \<and> (selected < int (length module_list) \<longrightarrow>
        select_module_loop module_list selected (Up # ks) out =
          select_module_loop module_list
            (if selected = 0 then int (length module_list) - 1 else selected - 1) ks
            (out @ [Module_menu module_list selected])
      \<and> select_module_loop module_list selected (Down # ks) out =
          select_module_loop module_list
            (if selected = int (length module_list) - 1 then 0 else selected + 1) ks
            (out @ [Module_menu module_list selected]))
   \<and> (selected < int (length (options question)) \<longrightarrow>
        show_question_loop self question number selected checked (Up # ks) out =
          show_question_loop self question number
            (if selected = 0 then int (length (options question)) - 1 else selected - 1)
            checked ks
            (out @ [Question_screen number (length (quiz_questions self)) question
                     selected checked])
      \<and> show_question_loop self question number selected checked (Down # ks) out =
          show_question_loop self question number
            (if selected = int (length (options question)) - 1 then 0 else selected + 1)
            checked ks
            (out @ [Question_screen number (length (quiz_questions self)) question
                     selected checked]))"
proof (intro conjI impI)
  assume b: "selected < 3"
  from assms b have u: "py_mod (selected - 1) 3 = Inr (if selected = 0 then 3 - 1 else selected - 1)"
    using py_mod_up [of selected 3] by simp
  from assms b have d: "py_mod (selected + 1) 3 = Inr (if selected = 3 - 1 then 0 else selected + 1)"
    using py_mod_down [of selected 3] by simp
  show "select_mode_loop selected (Up # ks) out =
          select_mode_loop (if selected = 0 then 3 - 1 else selected - 1) ks
            (out @ [Mode_menu selected])"
    by (simp only: select_mode_loop.simps u sum.case)
  show "select_mode_loop selected (Down # ks) out =
          select_mode_loop (if selected = 3 - 1 then 0 else selected + 1) ks
            (out @ [Mode_menu selected])"
    by (simp only: select_mode_loop.simps d sum.case)
next
  assume b: "selected < int (length module_list)"
  show "select_module_loop module_list selected (Up # ks) out =
          select_module_loop module_list
            (if selected = 0 then int (length module_list) - 1 else selected - 1) ks
            (out @ [Module_menu module_list selected])"
    by (simp only: select_module_loop.simps py_mod_up [OF assms b] sum.case)
  show "select_module_loop module_list selected (Down # ks) out =
          select_module_loop module_list
            (if selected = int (length module_list) - 1 then 0 else selected + 1) ks
            (out @ [Module_menu module_list selected])"
    by (simp only: select_module_loop.simps py_mod_down [OF assms b] sum.case)
next
  assume b: "selected < int (length (options question))"
  show "show_question_loop self question number selected checked (Up # ks) out =
          show_question_loop self question number
            (if selected = 0 then int (length (options question)) - 1 else selected - 1)
            checked ks
            (out @ [Question_screen number (length (quiz_questions self)) question
                     selected checked])"
    by (simp only: show_question_loop.simps py_mod_up [OF assms b] sum.case)
  show "show_question_loop self question number selected checked (Down # ks) out =
          show_question_loop self question number
            (if selected = int (length (options question)) - 1 then 0 else selected + 1)
            checked ks
            (out @ [Question_screen number (length (quiz_questions self)) question
                     selected checked])"
    by (simp only: show_question_loop.simps py_mod_down [OF assms b] sum.case)
qed

theorem menu_cursor_wraps_witness:
  "select_mode_loop 0 [Up, Enter] [] = Returned (Some 2) [] [Mode_menu 0, Mode_menu 2]
   \<and> select_mode_loop 2 [Down, Enter] [] = Returned (Some 0) [] [Mode_menu 2, Mode_menu 0]
   \<and> select_module_loop [4, 7] 0 [Up, Enter] [] =
        Returned (Some 7) [] [Module_menu [4, 7] 0, Module_menu [4, 7] 1]
   \<and> show_question_loop quiz1 q1 1 0 {} [Up, Space, Enter] [] =
        Returned (Some [2]) []
          [Question_screen 1 0 q1 0 {}, Question_screen 1 0 q1 2 {}, Question_screen 1 0 q1 2 {2}]"
  using menu_cursor_wraps [of 0 "[Enter]" "[]" "[4, 7]" q1 quiz1 1 "{}"]
    menu_cursor_wraps [of 2 "[Enter]" "[]" "[4, 7]" q1 quiz1 1 "{}"]
  by (simp add: py_mod_def getitem_def quiz_init_def)

section \<open>The loop of one question\<close>

text \<open>With nothing checked, Enter only redraws the question.\<close>

lemma show_question_loop_Enter_empty:
  "show_question_loop self question number selected {} (replicate m Enter @ ks) out =
     show_question_loop self question number selected {} ks
       (out @ replicate m (Question_screen number (length (quiz_questions self)) question selected {}))"
proof (induction m arbitrary: out)
  case 0
  show ?case by simp
next
  case (Suc m)
  show ?case
    by (simp add: Suc.IH replicate_app_Cons_same)
qed

text \<open>
  Claim C6. In the loop of \<open>show_question\<close>, Enter with a non-empty checked set returns
  the list of the checked indices and leaves the remaining keys unread; Enter with an
  empty checked set returns nothing and the loop goes on in the same state, so that
  pressing Enter any number of times with nothing checked never confirms, and Escape
  after that still aborts; Escape returns \<open>None\<close>, which is no list.
\<close>

theorem enter_submits_only_when_checked:
  "(checked \<noteq> {} \<longrightarrow>
      show_question_loop self question number selected checked (Enter # ks) out =
        Returned (Some (sorted_list_of_set checked)) ks
          (out @ [Question_screen number (length (quiz_questions self)) question selected checked]))
   \<and> (checked = {} \<longrightarrow>
      show_question_loop self question number selected checked (Enter # ks) out =
        show_question_loop self question number selected checked ks
          (out @ [Question_screen number (length (quiz_questions self)) question selected checked]))
   \<and> show_question_loop self question number selected {} (replicate m Enter) out = Blocked
   \<and> show_question self question number (replicate m Enter @ Esc # ks) out =
        Returned None ks
          (out @ replicate (Suc m) (Question_screen number (length (quiz_questions self)) question 0 {}))
   \<and> show_question_loop self question number selected checked (Esc # ks) out =
        Returned None ks
          (out @ [Question_screen number (length (quiz_questions self)) question selected checked])
   \<and> (None :: int list option) \<noteq> Some answer"
proof -
  have "show_question_loop self question number selected {} (replicate m Enter) out = Blocked"
    using show_question_loop_Enter_empty [of self question number selected m "[]" out]
    by simp
  moreover have "show_question self question number (replicate m Enter @ Esc # ks) out =
        Returned None ks
          (out @ replicate (Suc m) (Question_screen number (length (quiz_questions self)) question 0 {}))"
    by (simp add: show_question_def show_question_loop_Enter_empty replicate_append_same)
  ultimately show ?thesis by simp
qed

theorem enter_submits_only_when_checked_witness:
  "{0, 2::int} \<noteq> {}
   \<and> show_question_loop quiz1 q1 1 1 {0, 2} [Enter, Up] [] =
        Returned (Some [0, 2]) [Up] [Question_screen 1 0 q1 1 {0, 2}]
   \<and> show_question_loop quiz1 q1 1 1 {} [Enter, Space, Enter] [] =
        Returned (Some [1]) []
          [Question_screen 1 0 q1 1 {}, Question_screen 1 0 q1 1 {}, Question_screen 1 0 q1 1 {1}]"
  using enter_submits_only_when_checked [of "{0, 2}" quiz1 q1 1 1 "[Up]" "[]" 0 "[]"]
    enter_submits_only_when_checked [of "{}" quiz1 q1 1 1 "[Space, Enter]" "[]" 0 "[]"]
  by (simp add: quiz_init_def)

text \<open>
  The loop keeps the cursor on an option and the checked set inside the options, so the
  list it returns is made of option indices.
\<close>

lemma show_question_loop_answer:
  assumes "show_question_loop self question number selected checked ks out = Returned (Some xs) ks' out'"
    and "finite checked"
    and "checked \<subseteq> {0..<int (length (options question))}"
    and "0 \<le> selected" and "selected < int (length (options question))"
  shows "xs \<noteq> [] \<and> distinct xs \<and> set xs \<subseteq> {0..<int (length (options question))}"
  using assms
proof (induction self question number selected checked ks out rule: show_question_loop.induct)
  case (1 self question number selected checked out)
  then show ?case by simp
next
  case (2 self question number selected checked ks out)
  then show ?case
    by (auto simp: py_mod_up split: if_splits)
next
  case (3 self question number selected checked ks out)
  then show ?case
    by (auto simp: py_mod_down split: if_splits)
next
  case (4 self question number selected checked ks out)
  then show ?case
    by (auto split: if_splits)
next
  case (5 self question number selected checked ks out)
  then show ?case
    by (auto split: if_splits)
next
  case (6 self question number selected checked ks out)
  then show ?case by simp
next
  case (7 self question number selected checked ks out)
  then show ?case by simp
qed

text \<open>
  Claim C10. For a question with at least one option (every question that the parser
  stores has one, see \<open>parse_questions_options_nonempty\<close> above), an answer that
  \<open>show_question\<close> returns is a non-empty list without duplicates, and each of its
  elements is an index of an option of the question.
\<close>

theorem returned_answer_is_valid:
  assumes "options question \<noteq> []"
    and "show_question self question number ks out = Returned (Some xs) ks' out'"
  shows "xs \<noteq> [] \<and> distinct xs \<and> (\<forall>i \<in> set xs. 0 \<le> i \<and> i < int (length (options question)))"
proof -
  have "xs \<noteq> [] \<and> distinct xs \<and> set xs \<subseteq> {0..<int (length (options question))}"
    using assms show_question_loop_answer [of self question number 0 "{}" ks out xs ks' out']
    by (simp add: show_question_def)
  then show ?thesis by auto
qed

theorem returned_answer_is_valid_witness:
  "options q1 \<noteq> []
   \<and> show_question quiz1 q1 1 [Space, Up, Space, Enter] [] =
        Returned (Some [0, 2]) []
         [Question_screen 1 0 q1 0 {}, Question_screen 1 0 q1 0 {0}, Question_screen 1 0 q1 2 {0},
          Question_screen 1 0 q1 2 {2, 0}]
   \<and> [0, 2] \<noteq> [] \<and> distinct [0, 2 :: int] \<and> 0 \<le> (0::int) \<and> (2::int) < int (length (options q1))"
  using returned_answer_is_valid [of q1 quiz1 1 "[Space, Up, Space, Enter]" "[]" "[0, 2]" "[]"]
  by (simp add: show_question_def py_mod_def quiz_init_def)

section \<open>Scoring\<close>

lemma check_answers_examples:
  "check_answers [2, 0] [0, 2]" "check_answers [0, 2, 0] [0, 2]"
  "\<not> check_answers [0] [0, 2]" "\<not> check_answers [0, 1, 2] [0, 2]"
proof -
  show "check_answers [2, 0] [0, 2]" "check_answers [0, 2, 0] [0, 2]"
    by (auto simp: check_answers_def)
  have "(2::int) \<in> set [0, 2]" "(2::int) \<notin> set [0]" by simp_all
  then have "set [0] \<noteq> set [0, 2::int]" by metis
  then show "\<not> check_answers [0] [0, 2]" by (simp only: check_answers_def not_False_eq_True)
  have "(1::int) \<in> set [0, 1, 2]" "(1::int) \<notin> set [0, 2]" by simp_all
  then have "set [0, 1, 2] \<noteq> set [0, 2::int]" by metis
  then show "\<not> check_answers [0, 1, 2] [0, 2]" by (simp only: check_answers_def not_False_eq_True)
qed

text \<open>
  Claim C4. \<open>check_answers\<close> judges an answer correct exactly when the submitted list and
  the list of correct indices have the same elements. So neither the order nor the
  repetition of the submitted indices matters (any two lists with the same elements are
  judged alike, \<open>[2, 0]\<close> and \<open>[0, 2, 0]\<close> are correct for \<open>[0, 2]\<close>), and a strict
  subset or a strict superset of the correct indices is judged wrong (\<open>[0]\<close> and
  \<open>[0, 1, 2]\<close> are wrong for \<open>[0, 2]\<close>).
\<close>

theorem check_answers_set_equality:
  "(check_answers user_answers cor \<longleftrightarrow> set user_answers = set cor)
   \<and> (set user_answers' = set user_answers \<longrightarrow>
        check_answers user_answers' cor = check_answers user_answers cor)
   \<and> check_answers (rev user_answers) cor = check_answers user_answers cor
   \<and> check_answers (user_answers @ user_answers) cor = check_answers user_answers cor
   \<and> (set user_answers \<subset> set cor \<longrightarrow> \<not> check_answers user_answers cor)
   \<and> (set cor \<subset> set user_answers \<longrightarrow> \<not> check_answers user_answers cor)
   \<and> check_answers [2, 0] [0, 2]
   \<and> check_answers [0, 2, 0] [0, 2]
   \<and> \<not> check_answers [0] [0, 2]
   \<and> \<not> check_answers [0, 1, 2] [0, 2]"
proof -
  have "check_answers user_answers cor \<longleftrightarrow> set user_answers = set cor"
    by (simp add: check_answers_def)
  moreover have "set user_answers' = set user_answers \<longrightarrow>
        check_answers user_answers' cor = check_answers user_answers cor"
    by (simp add: check_answers_def)
  moreover have "check_answers (rev user_answers) cor = check_answers user_answers cor"
    by (simp add: check_answers_def)
  moreover have "check_answers (user_answers @ user_answers) cor = check_answers user_answers cor"
    by (simp add: check_answers_def)
  moreover have "set user_answers \<subset> set cor \<longrightarrow> \<not> check_answers user_answers cor"
    by (auto simp: check_answers_def)
  moreover have "set cor \<subset> set user_answers \<longrightarrow> \<not> check_answers user_answers cor"
    by (auto simp: check_answers_def)
  ultimately show ?thesis
    using check_answers_examples by blast
qed

theorem check_answers_set_equality_witness:
  "set [0, 2, 0] = set [2, 0::int] \<and> check_answers [0, 2, 0] [0, 2] = check_answers [2, 0] [0, 2]
   \<and> set [0] \<subset> set [0, 2::int] \<and> \<not> check_answers [0] [0, 2]
   \<and> set [0, 2] \<subset> set [0, 1, 2::int] \<and> \<not> check_answers [0, 1, 2] [0, 2]"
proof -
  have a: "set [0, 2, 0] = set [2, 0::int]" by auto
  have "(2::int) \<in> set [0, 2]" "(2::int) \<notin> set [0]" "set [0] \<subseteq> set [0, 2::int]"
    by simp_all
  then have b: "set [0] \<subset> set [0, 2::int]" by blast
  have "(1::int) \<in> set [0, 1, 2]" "(1::int) \<notin> set [0, 2]" "set [0, 2] \<subseteq> set [0, 1, 2::int]"
    by simp_all
  then have c: "set [0, 2] \<subset> set [0, 1, 2::int]" by blast
  show ?thesis
    using a b c check_answers_set_equality [of "[2, 0]" "[0, 2]" "[0, 2, 0]"]
      check_answers_set_equality [of "[0]" "[0, 2]" "[]"]
      check_answers_set_equality [of "[0, 1, 2]" "[0, 2]" "[]"]
    by blast
qed

section \<open>The start of a run\<close>

text \<open>
  As many different positions as the list is long are all its positions: the sample is
  the whole list in another order.
\<close>

lemma picks_full_permutation:
  assumes "picks_ok picks (length xs)"
  shows "mset (map (\<lambda>p. xs ! p) picks) = mset xs"
proof -
  from assms have len: "length picks = length xs" and d: "distinct picks"
    and r: "set picks \<subseteq> {0..<length xs}"
    by (auto simp: picks_ok_def)
  from d len have "card (set picks) = card {0..<length xs}"
    by (simp add: distinct_card)
  with r have "set picks = {0..<length xs}"
    by (simp add: card_subset_eq)
  then have "set picks = set [0..<length xs]" by simp
  then have "mset picks = mset [0..<length xs]"
    using set_eq_iff_mset_eq_distinct [OF d distinct_upt, of 0 "length xs"] by blast
  then have "image_mset (\<lambda>p. xs ! p) (mset picks) = image_mset (\<lambda>p. xs ! p) (mset [0..<length xs])"
    by simp
  then have "mset (map (\<lambda>p. xs ! p) picks) = mset (map (\<lambda>p. xs ! p) [0..<length xs])"
    by simp
  then show ?thesis by (simp add: map_nth)
qed

text \<open>
  Claim C5. \<open>run_quiz\<close> asks \<open>random.sample\<close> for \<open>min(len, len)\<close> elements, which is
  the length of the list of question ids. So whatever order of the positions the
  generator chooses, the first three statements do not raise and leave in
  \<open>quiz_questions\<close> a permutation of the whole list (same length, same elements with the
  same multiplicities), with \<open>correct = 0\<close>, \<open>wrong = 0\<close>, \<open>total\<close> the length of the list
  and \<open>current_index = 0\<close>. The sample that \<open>main\<close> stores in \<open>quiz_questions\<close> just
  before has \<open>min(20, len)\<close> elements, and it is overwritten: the state at the start of
  the run is the same with it as without it.
\<close>

theorem run_starts_with_full_permutation:
  assumes "picks_ok picks (length question_ids)"
  shows "\<exists>self0. run_quiz_init picks self question_ids = Inr self0
     \<and> mset (quiz_questions self0) = mset question_ids
     \<and> length (quiz_questions self0) = length question_ids
     \<and> stats self0 = \<lparr>correct = 0, wrong = 0, total_count = length question_ids\<rparr>
     \<and> current_index self0 = 0
     \<and> questions self0 = questions self \<and> modules self0 = modules self
     \<and> (\<forall>picks20 quiz''. main_start picks20 self question_ids = Inr quiz'' \<longrightarrow>
            run_quiz_init picks quiz'' question_ids = Inr self0)
     \<and> (\<forall>picks20. picks_ok picks20 (length question_ids) \<longrightarrow>
            (\<exists>quiz''. main_start picks20 self question_ids = Inr quiz''
               \<and> length (quiz_questions quiz'') = min 20 (length question_ids)))"
proof -
  let ?sample = "map (\<lambda>p. question_ids ! p) picks"
  let ?self0 = "self\<lparr>quiz_questions := ?sample, current_index := 0,
                    stats := \<lparr>correct = 0, wrong = 0, total_count = length ?sample\<rparr>\<rparr>"
  from assms have lp: "length picks = length question_ids"
    by (simp add: picks_ok_def)
  then have whole: "take (min (length question_ids) (length question_ids)) picks = picks"
    by simp
  have sample: "random_sample picks question_ids
         (min (length question_ids) (length question_ids)) = Inr ?sample"
    by (simp only: random_sample_def whole) simp
  have init: "run_quiz_init picks quiz'' question_ids =
        Inr (quiz''\<lparr>quiz_questions := ?sample, current_index := 0,
                    stats := \<lparr>correct = 0, wrong = 0, total_count = length ?sample\<rparr>\<rparr>)"
    for quiz''
    by (simp only: run_quiz_init_def sample sum.case)
  have perm: "mset (quiz_questions ?self0) = mset question_ids"
    using picks_full_permutation [OF assms] by simp
  have over: "run_quiz_init picks quiz'' question_ids = Inr ?self0"
    if "main_start picks20 self question_ids = Inr quiz''" for picks20 quiz''
  proof -
    from that obtain capped where "quiz'' = self\<lparr>quiz_questions := capped\<rparr>"
      by (auto simp: main_start_def split: sum.splits)
    then show ?thesis by (simp add: init)
  qed
  have cap: "\<exists>quiz''. main_start picks20 self question_ids = Inr quiz''
               \<and> length (quiz_questions quiz'') = min 20 (length question_ids)"
    if "picks_ok picks20 (length question_ids)" for picks20
    using that by (simp add: main_start_def random_sample_def picks_ok_def)
  from init [of self] perm lp over cap show ?thesis
    by (intro exI [of _ ?self0]) simp
qed

theorem run_starts_with_full_permutation_witness:
  "picks_ok [20, 19, 18, 17, 16, 15, 14, 13, 12, 11, 10, 9, 8, 7, 6, 5, 4, 3, 2, 1, 0]
     (length ids21)
   \<and> picks_ok [0, 1, 2, 3, 4, 5, 6, 7, 8, 9, 10, 11, 12, 13, 14, 15, 16, 17, 18, 19, 20]
     (length ids21)
   \<and> main_start [0, 1, 2, 3, 4, 5, 6, 7, 8, 9, 10, 11, 12, 13, 14, 15, 16, 17, 18, 19, 20]
       quiz1 ids21 =
       Inr (quiz1\<lparr>quiz_questions := [101, 102, 103, 104, 105, 106, 107, 108, 109, 110, 111,
         112, 113, 114, 115, 116, 117, 118, 119, 120]\<rparr>)
   \<and> run_quiz_init [20, 19, 18, 17, 16, 15, 14, 13, 12, 11, 10, 9, 8, 7, 6, 5, 4, 3, 2, 1, 0]
       (quiz1\<lparr>quiz_questions := [101, 102, 103, 104, 105, 106, 107, 108, 109, 110, 111,
         112, 113, 114, 115, 116, 117, 118, 119, 120]\<rparr>) ids21 =
       Inr (quiz1\<lparr>quiz_questions := [121, 120, 119, 118, 117, 116, 115, 114, 113, 112, 111,
         110, 109, 108, 107, 106, 105, 104, 103, 102, 101], current_index := 0,
         stats := \<lparr>correct = 0, wrong = 0, total_count = 21\<rparr>\<rparr>)"
proof -
  have ok: "picks_ok [20, 19, 18, 17, 16, 15, 14, 13, 12, 11, 10, 9, 8, 7, 6, 5, 4, 3, 2, 1, 0]
     (length ids21)"
    by (simp add: picks_ok_def)
  have ok20: "picks_ok [0, 1, 2, 3, 4, 5, 6, 7, 8, 9, 10, 11, 12, 13, 14, 15, 16, 17, 18, 19, 20]
     (length ids21)"
    by (simp add: picks_ok_def)
  have m: "main_start [0, 1, 2, 3, 4, 5, 6, 7, 8, 9, 10, 11, 12, 13, 14, 15, 16, 17, 18, 19, 20]
       quiz1 ids21 =
       Inr (quiz1\<lparr>quiz_questions := [101, 102, 103, 104, 105, 106, 107, 108, 109, 110, 111,
         112, 113, 114, 115, 116, 117, 118, 119, 120]\<rparr>)"
    by (simp add: main_start_def random_sample_def)
  from run_starts_with_full_permutation [OF ok, of quiz1]
  obtain self0 where
    i: "run_quiz_init [20, 19, 18, 17, 16, 15, 14, 13, 12, 11, 10, 9, 8, 7, 6, 5, 4, 3, 2, 1, 0]
          quiz1 ids21 = Inr self0"
    and o: "\<And>picks20 quiz''. main_start picks20 quiz1 ids21 = Inr quiz'' \<Longrightarrow>
        run_quiz_init [20, 19, 18, 17, 16, 15, 14, 13, 12, 11, 10, 9, 8, 7, 6, 5, 4, 3, 2, 1, 0]
          quiz'' ids21 = Inr self0"
    by blast
  have v: "run_quiz_init [20, 19, 18, 17, 16, 15, 14, 13, 12, 11, 10, 9, 8, 7, 6, 5, 4, 3, 2, 1, 0]
          quiz1 ids21 = Inr (quiz1\<lparr>quiz_questions := [121, 120, 119, 118, 117, 116, 115, 114, 113, 112, 111,
         110, 109, 108, 107, 106, 105, 104, 103, 102, 101], current_index := 0,
         stats := \<lparr>correct = 0, wrong = 0, total_count = 21\<rparr>\<rparr>)"
    by (simp add: run_quiz_init_def random_sample_def)
  from o [OF m] i v ok ok20 m show ?thesis by simp
qed

section \<open>The tally during a run\<close>







section \<open>Floating point\<close>

text \<open>Zero is a double.\<close>

lemma to_double_zero: "to_double 0 = Some 0"
  by (simp add: to_double_def)

text \<open>
  The double nearest to a positive number, from its binade, the spacing there and the
  rounded multiple of the spacing.
\<close>

lemma to_double_pos:
  assumes "0 < x" and "binade x = e" and "pow2 (max e (- 1022) - 52) = ulp"
    and "round_half_even (x / ulp) = m" and "of_int m * ulp = y" and "y < pow2 1024"
  shows "to_double x = Some y"
  using assms by (auto simp: to_double_def Let_def)

text \<open>The literals \<open>0.8\<close> and \<open>0.6\<close> of \<open>show_summary\<close>.\<close>

lemma double_4_5: "to_double (4 / 5) = Some float_0_8"
proof (rule to_double_pos)
  show "(0::rat) < 4 / 5" by simp
  show "binade (4 / 5) = - 1" by code_simp
  show "pow2 (max (- 1) (- 1022) - 52) = 1 / 9007199254740992" by (simp add: pow2_def)
  show "round_half_even ((4 / 5) / (1 / 9007199254740992)) = 7205759403792794" by code_simp
  show "of_int 7205759403792794 * (1 / 9007199254740992) = float_0_8" by (simp add: float_0_8_def)
  show "float_0_8 < pow2 1024" by (simp add: pow2_def float_0_8_def)
qed

lemma double_3_5: "to_double (3 / 5) = Some float_0_6"
proof (rule to_double_pos)
  show "(0::rat) < 3 / 5" by simp
  show "binade (3 / 5) = - 1" by code_simp
  show "pow2 (max (- 1) (- 1022) - 52) = 1 / 9007199254740992" by (simp add: pow2_def)
  show "round_half_even ((3 / 5) / (1 / 9007199254740992)) = 5404319552844595" by code_simp
  show "of_int 5404319552844595 * (1 / 9007199254740992) = float_0_6" by (simp add: float_0_6_def)
  show "float_0_6 < pow2 1024" by (simp add: pow2_def float_0_6_def)
qed

text \<open>
  Three percentages as Python computes them: \<open>int(1 / 3 * 100)\<close> is 33,
  \<open>int(2 / 3 * 100)\<close> is 66, and \<open>int(29 / 100 * 100)\<close> is 28, since \<open>29 / 100\<close>
  rounds down and its product with 100 rounds to the double just below 29.
\<close>

lemma double_1_3: "to_double (1 / 3) = Some (6004799503160661 / 18014398509481984)"
proof (rule to_double_pos)
  show "(0::rat) < 1 / 3" by simp
  show "binade (1 / 3) = - 2" by code_simp
  show "pow2 (max (- 2) (- 1022) - 52) = 1 / 18014398509481984" by (simp add: pow2_def)
  show "round_half_even ((1 / 3) / (1 / 18014398509481984)) = 6004799503160661" by code_simp
  show "of_int 6004799503160661 * (1 / 18014398509481984) = (6004799503160661 / 18014398509481984 :: rat)" by simp
  show "(6004799503160661 / 18014398509481984) < pow2 1024" by (simp add: pow2_def)
qed

lemma double_1_3_scaled: "to_double (150119987579016525 / 4503599627370496) = Some (2345624805922133 / 70368744177664)"
proof (rule to_double_pos)
  show "(0::rat) < 150119987579016525 / 4503599627370496" by simp
  show "binade (150119987579016525 / 4503599627370496) = 5" by code_simp
  show "pow2 (max (5) (- 1022) - 52) = 1 / 140737488355328" by (simp add: pow2_def)
  show "round_half_even ((150119987579016525 / 4503599627370496) / (1 / 140737488355328)) = 4691249611844266" by code_simp
  show "of_int 4691249611844266 * (1 / 140737488355328) = (2345624805922133 / 70368744177664 :: rat)" by simp
  show "(2345624805922133 / 70368744177664) < pow2 1024" by (simp add: pow2_def)
qed

lemma percent_1_3: "percent 1 3 = Inr 33"
proof -
  have q: "(of_nat 1 / of_nat 3 :: rat) = 1 / 3" by simp
  have t: "truediv 1 3 = Inr (6004799503160661 / 18014398509481984)"
    by (simp only: truediv_def q double_1_3) simp
  have s: "(6004799503160661 / 18014398509481984) * 100 = (150119987579016525 / 4503599627370496 :: rat)" by simp
  have f: "\<lfloor>2345624805922133 / 70368744177664 :: rat\<rfloor> = 33" by code_simp
  show ?thesis
    unfolding percent_def t by (simp add: s double_1_3_scaled f)
qed

lemma double_2_3: "to_double (2 / 3) = Some (6004799503160661 / 9007199254740992)"
proof (rule to_double_pos)
  show "(0::rat) < 2 / 3" by simp
  show "binade (2 / 3) = - 1" by code_simp
  show "pow2 (max (- 1) (- 1022) - 52) = 1 / 9007199254740992" by (simp add: pow2_def)
  show "round_half_even ((2 / 3) / (1 / 9007199254740992)) = 6004799503160661" by code_simp
  show "of_int 6004799503160661 * (1 / 9007199254740992) = (6004799503160661 / 9007199254740992 :: rat)" by simp
  show "(6004799503160661 / 9007199254740992) < pow2 1024" by (simp add: pow2_def)
qed

lemma double_2_3_scaled: "to_double (150119987579016525 / 2251799813685248) = Some (2345624805922133 / 35184372088832)"
proof (rule to_double_pos)
  show "(0::rat) < 150119987579016525 / 2251799813685248" by simp
  show "binade (150119987579016525 / 2251799813685248) = 6" by code_simp
  show "pow2 (max (6) (- 1022) - 52) = 1 / 70368744177664" by (simp add: pow2_def)
  show "round_half_even ((150119987579016525 / 2251799813685248) / (1 / 70368744177664)) = 4691249611844266" by code_simp
  show "of_int 4691249611844266 * (1 / 70368744177664) = (2345624805922133 / 35184372088832 :: rat)" by simp
  show "(2345624805922133 / 35184372088832) < pow2 1024" by (simp add: pow2_def)
qed

lemma percent_2_3: "percent 2 3 = Inr 66"
proof -
  have q: "(of_nat 2 / of_nat 3 :: rat) = 2 / 3" by simp
  have t: "truediv 2 3 = Inr (6004799503160661 / 9007199254740992)"
    by (simp only: truediv_def q double_2_3) simp
  have s: "(6004799503160661 / 9007199254740992) * 100 = (150119987579016525 / 2251799813685248 :: rat)" by simp
  have f: "\<lfloor>2345624805922133 / 35184372088832 :: rat\<rfloor> = 66" by code_simp
  show ?thesis
    unfolding percent_def t by (simp add: s double_2_3_scaled f)
qed

lemma double_29_100: "to_double (29 / 100) = Some (5224175567749775 / 18014398509481984)"
proof (rule to_double_pos)
  show "(0::rat) < 29 / 100" by simp
  show "binade (29 / 100) = - 2" by code_simp
  show "pow2 (max (- 2) (- 1022) - 52) = 1 / 18014398509481984" by (simp add: pow2_def)
  show "round_half_even ((29 / 100) / (1 / 18014398509481984)) = 5224175567749775" by code_simp
  show "of_int 5224175567749775 * (1 / 18014398509481984) = (5224175567749775 / 18014398509481984 :: rat)" by simp
  show "(5224175567749775 / 18014398509481984) < pow2 1024" by (simp add: pow2_def)
qed

lemma double_29_100_scaled: "to_double (130604389193744375 / 4503599627370496) = Some (8162774324609023 / 281474976710656)"
proof (rule to_double_pos)
  show "(0::rat) < 130604389193744375 / 4503599627370496" by simp
  show "binade (130604389193744375 / 4503599627370496) = 4" by code_simp
  show "pow2 (max (4) (- 1022) - 52) = 1 / 281474976710656" by (simp add: pow2_def)
  show "round_half_even ((130604389193744375 / 4503599627370496) / (1 / 281474976710656)) = 8162774324609023" by code_simp
  show "of_int 8162774324609023 * (1 / 281474976710656) = (8162774324609023 / 281474976710656 :: rat)" by simp
  show "(8162774324609023 / 281474976710656) < pow2 1024" by (simp add: pow2_def)
qed

lemma percent_29_100: "percent 29 100 = Inr 28"
proof -
  have q: "(of_nat 29 / of_nat 100 :: rat) = 29 / 100" by simp
  have t: "truediv 29 100 = Inr (5224175567749775 / 18014398509481984)"
    by (simp only: truediv_def q double_29_100) simp
  have s: "(5224175567749775 / 18014398509481984) * 100 = (130604389193744375 / 4503599627370496 :: rat)" by simp
  have f: "\<lfloor>8162774324609023 / 281474976710656 :: rat\<rfloor> = 28" by code_simp
  show ?thesis
    unfolding percent_def t by (simp add: s double_29_100_scaled f)
qed

section \<open>Escape during a question\<close>

text \<open>
  When \<open>show_question\<close> returns \<open>None\<close>, the body of the loop shows the exit screen and
  breaks with the quiz unchanged, and the loop returns it. Whenever \<open>run_quiz\<close>
  returns, the last screen shown is the summary.
\<close>

lemma run_quiz_body_escape:
  assumes "current_index self < length (quiz_questions self)"
    and "map_of (questions self) (quiz_questions self ! current_index self) = Some question"
    and "show_question self question (current_index self + 1) ks out = Returned None ks' out'"
  shows "run_quiz_body self ks out =
           Returned (Break, self) ks' (out' @ [Exit_screen (current_index self)
             (length (quiz_questions self)) (correct (stats self)) (wrong (stats self))])"
    and "run_quiz_loop self ks out =
           Returned self ks' (out' @ [Exit_screen (current_index self)
             (length (quiz_questions self)) (correct (stats self)) (wrong (stats self))])"
proof -
  from assms show b: "run_quiz_body self ks out =
           Returned (Break, self) ks' (out' @ [Exit_screen (current_index self)
             (length (quiz_questions self)) (correct (stats self)) (wrong (stats self))])"
    by (simp add: run_quiz_body_def getitem_def show_exit_confirmation_def)
  from assms(1) b show "run_quiz_loop self ks out =
           Returned self ks' (out' @ [Exit_screen (current_index self)
             (length (quiz_questions self)) (correct (stats self)) (wrong (stats self))])"
    by (simp add: run_quiz_loop.simps [of self])
qed

lemma run_quiz_ends_with_summary:
  assumes "run_quiz picks self question_ids ks out = Returned self' ks' out'"
  shows "\<exists>shown t c cp w wp m. out' = shown @ [Summary_screen t c cp w wp m]"
  using assms
  by (auto simp: run_quiz_def show_summary_def split: sum.splits outcome.splits)

text \<open>
  Claim C1, on the code. One question, and Escape as the first key, or after checking
  an option: \<open>show_question\<close> returns \<open>None\<close>, the tally stays at 0 correct and 0
  wrong, the exit screen is shown, and the \<open>break\<close> leaves the loop for the statement
  after it, \<open>self.show_summary()\<close>: the summary screen is shown as well.
\<close>

theorem escape_still_shows_summary:
  "run_quiz [0] quiz1 [1] [Esc] [] =
     Returned (quiz1\<lparr>quiz_questions := [1], current_index := 0,
                 stats := \<lparr>correct = 0, wrong = 0, total_count = 1\<rparr>\<rparr>) []
       [Question_screen 1 1 q1 0 {}, Exit_screen 0 1 0 0, Summary_screen 1 0 0 0 0 Warto_cwiczyc]
   \<and> run_quiz [0] quiz1 [1] [Space, Esc] [] =
     Returned (quiz1\<lparr>quiz_questions := [1], current_index := 0,
                 stats := \<lparr>correct = 0, wrong = 0, total_count = 1\<rparr>\<rparr>) []
       [Question_screen 1 1 q1 0 {}, Question_screen 1 1 q1 0 {0}, Exit_screen 0 1 0 0,
        Summary_screen 1 0 0 0 0 Warto_cwiczyc]"
  by (simp add: run_quiz_def run_quiz_init_def random_sample_def run_quiz_body_def getitem_def
      show_question_def show_exit_confirmation_def show_summary_def percent_def truediv_def
      summary_tier_def to_double_zero float_0_8_def float_0_6_def quiz_init_def)

section \<open>The summary of an empty run\<close>

text \<open>With a positive \<open>total\<close> the summary does not divide by zero.\<close>

lemma show_summary_positive_total:
  assumes "0 < total_count (stats self)"
  shows "show_summary self out \<noteq> Inl ZeroDivisionError"
  using assms
  by (auto simp: show_summary_def percent_def summary_tier_def truediv_def
      split: sum.splits option.splits if_splits)

text \<open>
  Claim C2, on the code. With \<open>total = 0\<close> the two percentages are 0 by their guard
  \<open>if total > 0 else 0\<close>, but the condition \<open>correct / total >= 0.8\<close> that chooses the
  message has no guard and raises ZeroDivisionError. So \<open>show_summary\<close> raises on every
  tally with \<open>total = 0\<close>, on a quiz fresh from \<open>__init__\<close>, and at the end of
  \<open>run_quiz([])\<close>.
\<close>

theorem summary_of_empty_run_raises:
  "percent c 0 = Inr 0
   \<and> summary_tier c 0 = Inl ZeroDivisionError
   \<and> show_summary (self\<lparr>stats := \<lparr>correct = c, wrong = w, total_count = 0\<rparr>\<rparr>) out =
       Inl ZeroDivisionError
   \<and> show_summary (quiz_init qs ms) out = Inl ZeroDivisionError
   \<and> run_quiz [] self [] ks out = Raised ZeroDivisionError"
  by (simp add: run_quiz_def run_quiz_init_def random_sample_def
      show_summary_def percent_def truediv_def summary_tier_def quiz_init_def)

end
